theory Spec2Isabelle
  imports Main
begin

section \<open>Data model\<close>

text \<open>
  The contacts table of \<^verbatim>\<open>src/repository/contacts.py\<close>. A Python \<^verbatim>\<open>date\<close> is its three
  fields. The request body \<^verbatim>\<open>ContactSchema\<close> carries the six payload fields; a stored
  \<^verbatim>\<open>Contact\<close> row has the same six columns plus its primary key and the key of the owning
  user, so it is the record extension of the payload. A \<^verbatim>\<open>User\<close> is represented by
  its primary key: \<^verbatim>\<open>filter_by(user=user)\<close> compares exactly that key.
\<close>

record date =
  year :: nat
  month :: nat
  day :: nat

record ContactSchema =
  name :: string
  surname :: string
  email :: string
  phone_number :: string
  birthday :: date
  description :: "string option"

record Contact = ContactSchema +
  contact_id :: int
  user_id :: int

type_synonym User = int

text \<open>
  The session: the rows of the table in the store's natural order, and the number of
  commits performed through it.
\<close>

record Session =
  rows :: "Contact list"
  commits :: nat

text \<open>
  Every way a call can fail. \<open>DBAPIError\<close> is an error raised by the database while it runs
  a statement, \<open>HTTPException\<close> carries its status code, \<open>RequestValidationError\<close> is the
  framework rejecting a parameter (status 422); the others are the Python exceptions of
  the same name.
\<close>

datatype error =
    UnboundLocalError
  | MultipleResultsFound
  | AttributeError
  | OverflowError
  | DBAPIError
  | RequestValidationError
  | HTTPException nat

text \<open>The row tuple selected by \<^verbatim>\<open>get_contacts_by_params\<close>: the seven listed columns.\<close>

type_synonym Row = "int \<times> string \<times> string \<times> string \<times> string \<times> date \<times> string option"

definition columns :: "Contact \<Rightarrow> Row" where
  "columns c = (contact_id c, name c, surname c, email c, phone_number c, birthday c, description c)"

section \<open>Repository operations\<close>

text \<open>
  The values the database takes for a statement's parameters: the identifier column is a
  32-bit integer, LIMIT and OFFSET are 64-bit integers. A Python integer outside the range
  makes the statement fail before any row is read.
\<close>

definition in_int4 :: "int \<Rightarrow> bool" where
  "in_int4 i = (- 2147483648 \<le> i \<and> i < 2147483648)"

definition in_int8 :: "int \<Rightarrow> bool" where
  "in_int8 i = (- 9223372036854775808 \<le> i \<and> i < 9223372036854775808)"

text \<open>\<^verbatim>\<open>Result.scalar_one_or_none()\<close>: no row, the one row, or an exception on several.\<close>

fun scalar_one_or_none :: "'a list \<Rightarrow> error + 'a option" where
  "scalar_one_or_none [] = Inr None"
| "scalar_one_or_none [x] = Inr (Some x)"
| "scalar_one_or_none (x # y # zs) = Inl MultipleResultsFound"

text \<open>
  \<^verbatim>\<open>select(Contact).filter_by(user=user).offset(offset).limit(limit)\<close>. The database refuses
  an OFFSET or LIMIT that is negative or no 64-bit integer.
\<close>

definition get_contacts :: "int \<Rightarrow> int \<Rightarrow> Session \<Rightarrow> User \<Rightarrow> error + Contact list" where
  "get_contacts limit offset db user =
     (if \<not> in_int8 limit \<or> \<not> in_int8 offset \<or> offset < 0 \<or> limit < 0 then Inl DBAPIError
      else Inr (take (nat limit) (drop (nat offset) (filter (\<lambda>c. user_id c = user) (rows db)))))"

text \<open>
  \<^verbatim>\<open>select(Contact).filter_by(id=contact_id, user=user)\<close> and \<^verbatim>\<open>scalar_one_or_none()\<close>, the
  lookup of \<^verbatim>\<open>get_contact\<close>, \<^verbatim>\<open>update_contact\<close> and \<^verbatim>\<open>delete_contact\<close>.
\<close>

definition get_contact :: "int \<Rightarrow> Session \<Rightarrow> User \<Rightarrow> error + Contact option" where
  "get_contact cid db user =
     (if \<not> in_int4 cid then Inl DBAPIError
      else scalar_one_or_none (filter (\<lambda>c. contact_id c = cid \<and> user_id c = user) (rows db)))"

text \<open>The six assignments of \<^verbatim>\<open>update_contact\<close>.\<close>

definition assign_fields :: "Contact \<Rightarrow> ContactSchema \<Rightarrow> Contact" where
  "assign_fields contact body =
     contact\<lparr>name := name body, surname := surname body, email := email body,
             phone_number := phone_number body, birthday := birthday body,
             description := description body\<rparr>"

text \<open>
  \<^verbatim>\<open>update_contact\<close>: the result and the session afterwards. The commit writes the changed
  object back under its primary key; the store puts the new version of the row at the end
  of its natural order.
\<close>

definition update_contact ::
  "int \<Rightarrow> ContactSchema \<Rightarrow> Session \<Rightarrow> User \<Rightarrow> (error + Contact option) \<times> Session" where
  "update_contact cid body db user =
     (case get_contact cid db user of
        Inl e \<Rightarrow> (Inl e, db)
      | Inr None \<Rightarrow> (Inr None, db)
      | Inr (Some contact) \<Rightarrow>
          (let contact' = assign_fields contact body in
           (Inr (Some contact'),
            db\<lparr>rows := filter (\<lambda>r. contact_id r \<noteq> contact_id contact) (rows db) @ [contact'],
               commits := commits db + 1\<rparr>)))"

text \<open>\<^verbatim>\<open>delete_contact\<close>: the row found is deleted under its primary key and returned.\<close>

definition delete_contact :: "int \<Rightarrow> Session \<Rightarrow> User \<Rightarrow> (error + Contact option) \<times> Session" where
  "delete_contact cid db user =
     (case get_contact cid db user of
        Inl e \<Rightarrow> (Inl e, db)
      | Inr None \<Rightarrow> (Inr None, db)
      | Inr (Some contact) \<Rightarrow>
          (Inr (Some contact),
           db\<lparr>rows := filter (\<lambda>r. contact_id r \<noteq> contact_id contact) (rows db),
              commits := commits db + 1\<rparr>))"

text \<open>
  \<^verbatim>\<open>get_contacts_by_params\<close>. The local \<^verbatim>\<open>stmt\<close> is assigned in the first branch whose
  filter is not \<^verbatim>\<open>None\<close> and in no branch otherwise (\<^verbatim>\<open>else: pass\<close>); the statements select
  the seven columns with the one \<^verbatim>\<open>filter_by\<close> of the branch. Executing reads the local.
\<close>

datatype stmt = ByName string | BySurname string | ByEmail string

definition build_stmt :: "string option \<Rightarrow> string option \<Rightarrow> string option \<Rightarrow> stmt option" where
  "build_stmt name' surname' email' =
     (case name' of
        Some n \<Rightarrow> Some (ByName n)
      | None \<Rightarrow>
          (case surname' of
             Some s \<Rightarrow> Some (BySurname s)
           | None \<Rightarrow>
               (case email' of
                  Some e \<Rightarrow> Some (ByEmail e)
                | None \<Rightarrow> None)))"

fun execute :: "Session \<Rightarrow> stmt \<Rightarrow> Row list" where
  "execute db (ByName n) = map columns (filter (\<lambda>c. name c = n) (rows db))"
| "execute db (BySurname s) = map columns (filter (\<lambda>c. surname c = s) (rows db))"
| "execute db (ByEmail e) = map columns (filter (\<lambda>c. email c = e) (rows db))"

definition get_contacts_by_params ::
  "string option \<Rightarrow> string option \<Rightarrow> string option \<Rightarrow> Session \<Rightarrow> User \<Rightarrow> error + Row list" where
  "get_contacts_by_params name' surname' email' db user =
     (case build_stmt name' surname' email' of
        None \<Rightarrow> Inl UnboundLocalError
      | Some stmt \<Rightarrow> Inr (execute db stmt))"

section \<open>Routes\<close>

text \<open>
  The status of a response: the route's declared code on a normal return, the code of a
  raised \<^verbatim>\<open>HTTPException\<close>, 422 on a rejected parameter, and 500 on any other exception.
\<close>

fun status_code :: "nat \<Rightarrow> error + 'a \<Rightarrow> nat" where
  "status_code ok (Inr v) = ok"
| "status_code ok (Inl (HTTPException n)) = n"
| "status_code ok (Inl RequestValidationError) = 422"
| "status_code ok (Inl e) = 500"

text \<open>
  Modelled from the spec: the entity class \<^verbatim>\<open>Contact\<close> (\<^verbatim>\<open>src/entity/models.py\<close>, not among
  the sources) has the attributes of the data model and none called \<^verbatim>\<open>scalars\<close>; neither
  has \<^verbatim>\<open>None\<close>. Reading \<^verbatim>\<open>contact.scalars\<close> therefore raises on both.
\<close>

fun scalars_all :: "Contact option \<Rightarrow> error + Contact list" where
  "scalars_all None = Inl AttributeError"
| "scalars_all (Some c) = Inl AttributeError"

text \<open>
  The route \<^verbatim>\<open>DELETE /contacts/{contact_id}\<close>, declared with status 204 and
  \<^verbatim>\<open>contact_id: int = Path(ge=1)\<close>: it calls the repository and returns
  \<^verbatim>\<open>contact.scalars().all()\<close>.
\<close>

definition route_delete_contact :: "int \<Rightarrow> Session \<Rightarrow> User \<Rightarrow> (error + Contact list) \<times> Session" where
  "route_delete_contact cid db user =
     (if cid < 1 then (Inl RequestValidationError, db)
      else (case delete_contact cid db user of
              (Inl e, db') \<Rightarrow> (Inl e, db')
            | (Inr contact, db') \<Rightarrow> (scalars_all contact, db')))"

text \<open>
  The route \<^verbatim>\<open>PUT /contacts/{contact_id}\<close>, with \<^verbatim>\<open>contact_id: int = Path(ge=1)\<close>: a
  \<^verbatim>\<open>None\<close> from the repository becomes the 404 exception.
\<close>

definition route_update_contact ::
  "ContactSchema \<Rightarrow> int \<Rightarrow> Session \<Rightarrow> User \<Rightarrow> (error + Contact) \<times> Session" where
  "route_update_contact body cid db user =
     (if cid < 1 then (Inl RequestValidationError, db)
      else (case update_contact cid body db user of
              (Inl e, db') \<Rightarrow> (Inl e, db')
            | (Inr None, db') \<Rightarrow> (Inl (HTTPException 404), db')
            | (Inr (Some contact), db') \<Rightarrow> (Inr contact, db')))"

text \<open>
  The route \<^verbatim>\<open>GET /contacts/\<close>, with \<^verbatim>\<open>limit = Query(10, ge=10, le=500)\<close> and
  \<^verbatim>\<open>offset = Query(0, ge=0)\<close>.
\<close>

definition route_get_contacts :: "int \<Rightarrow> int \<Rightarrow> Session \<Rightarrow> User \<Rightarrow> error + Contact list" where
  "route_get_contacts limit offset db user =
     (if limit < 10 \<or> 500 < limit \<or> offset < 0 then Inl RequestValidationError
      else get_contacts limit offset db user)"

section \<open>Calendar dates\<close>

text \<open>
  The proleptic Gregorian calendar of Python's \<^verbatim>\<open>datetime.date\<close> and of the database's
  \<^verbatim>\<open>date\<close> type. \<open>toordinal\<close> is the day number (1 for 0001-01-01), the value both
  compare dates by. \<open>wf_date\<close> says that the month and the day exist in the year;
  \<open>valid_date\<close> adds Python's bound \<^verbatim>\<open>MAXYEAR = 9999\<close>.
\<close>

definition is_leap :: "nat \<Rightarrow> bool" where
  "is_leap y = (y mod 4 = 0 \<and> (y mod 100 \<noteq> 0 \<or> y mod 400 = 0))"

definition days_in_month :: "nat \<Rightarrow> nat \<Rightarrow> nat" where
  "days_in_month y m =
     (if m = 2 then (if is_leap y then 29 else 28)
      else if m = 4 \<or> m = 6 \<or> m = 9 \<or> m = 11 then 30 else 31)"

definition days_before_year :: "nat \<Rightarrow> int" where
  "days_before_year y = (let y1 = int y - 1 in y1 * 365 + y1 div 4 - y1 div 100 + y1 div 400)"

text \<open>The days of the year before a month, for the months 1 to 12.\<close>

definition days_before_month :: "nat \<Rightarrow> nat \<Rightarrow> int" where
  "days_before_month y m =
     int ([0, 31, 59, 90, 120, 151, 181, 212, 243, 273, 304, 334] ! (m - 1))
       + (if 2 < m \<and> is_leap y then 1 else 0)"

definition toordinal :: "date \<Rightarrow> int" where
  "toordinal d = days_before_year (year d) + days_before_month (year d) (month d) + int (day d)"

definition wf_date :: "date \<Rightarrow> bool" where
  "wf_date d =
     (1 \<le> year d \<and> 1 \<le> month d \<and> month d \<le> 12 \<and>
      1 \<le> day d \<and> day d \<le> days_in_month (year d) (month d))"

definition valid_date :: "date \<Rightarrow> bool" where
  "valid_date d = (wf_date d \<and> year d \<le> 9999)"

definition next_day :: "date \<Rightarrow> date" where
  "next_day d =
     (if day d < days_in_month (year d) (month d) then d\<lparr>day := day d + 1\<rparr>
      else if month d < 12 then d\<lparr>month := month d + 1, day := 1\<rparr>
      else \<lparr>year = year d + 1, month = 1, day = 1\<rparr>)"

definition prev_day :: "date \<Rightarrow> date" where
  "prev_day d =
     (if 1 < day d then d\<lparr>day := day d - 1\<rparr>
      else if 1 < month d
        then d\<lparr>month := month d - 1, day := days_in_month (year d) (month d - 1)\<rparr>
      else \<lparr>year = year d - 1, month = 12, day = 31\<rparr>)"

primrec forward :: "nat \<Rightarrow> date \<Rightarrow> date" where
  "forward 0 d = d"
| "forward (Suc n) d = forward n (next_day d)"

primrec backward :: "nat \<Rightarrow> date \<Rightarrow> date" where
  "backward 0 d = d"
| "backward (Suc n) d = backward n (prev_day d)"

definition MAXORDINAL :: int where
  "MAXORDINAL = 3652059"

text \<open>
  \<^verbatim>\<open>d + timedelta(days=days)\<close>: the date that many days later (earlier for a negative
  number), and \<^verbatim>\<open>OverflowError\<close> when its day number leaves the range of dates,
  \<open>1\<close> to \<open>MAXORDINAL\<close> (9999-12-31). A number of days outside the range of
  \<^verbatim>\<open>timedelta\<close> raises the same error and is outside this range as well.
\<close>

definition date_add :: "date \<Rightarrow> int \<Rightarrow> error + date" where
  "date_add d days =
     (let ord = toordinal d + days in
      if 0 < ord \<and> ord \<le> MAXORDINAL
      then Inr (if 0 \<le> days then forward (nat days) d else backward (nat (- days)) d)
      else Inl OverflowError)"

section \<open>The SQL functions of the birthday query\<close>

definition digit_char :: "nat \<Rightarrow> char" where
  "digit_char n = ''0123456789'' ! n"

definition digit_val :: "char \<Rightarrow> nat option" where
  "digit_val c =
     map_of [(CHR ''0'', 0), (CHR ''1'', 1), (CHR ''2'', 2), (CHR ''3'', 3), (CHR ''4'', 4),
             (CHR ''5'', 5), (CHR ''6'', 6), (CHR ''7'', 7), (CHR ''8'', 8), (CHR ''9'', 9)] c"

fun parse_digits :: "nat \<Rightarrow> string \<Rightarrow> nat option" where
  "parse_digits acc [] = Some acc"
| "parse_digits acc (c # cs) =
     (case digit_val c of None \<Rightarrow> None | Some v \<Rightarrow> parse_digits (10 * acc + v) cs)"

definition parse_int :: "string \<Rightarrow> nat option" where
  "parse_int s = (if s = [] then None else parse_digits 0 s)"

definition lpad2 :: "nat \<Rightarrow> string" where
  "lpad2 n = [digit_char (n div 10 mod 10), digit_char (n mod 10)]"

text \<open>\<^verbatim>\<open>to_char(Contact.birthday, "DDMM")\<close>: two digits of the day, two of the month.\<close>

definition to_char_DDMM :: "date \<Rightarrow> string" where
  "to_char_DDMM d = lpad2 (day d) @ lpad2 (month d)"

text \<open>The decimal digits of a number, as \<^verbatim>\<open>concat\<close> renders its integer argument.\<close>

fun str :: "nat \<Rightarrow> string" where
  "str n = (if n < 10 then [digit_char n] else str (n div 10) @ [digit_char (n mod 10)])"

declare str.simps [simp del]

definition concat_year :: "string \<Rightarrow> nat \<Rightarrow> string" where
  "concat_year s y = s @ str y"

text \<open>
  \<^verbatim>\<open>to_date(text, "DDMMYYYY")\<close>: two digits of day, two of month, and the year from the
  digits that follow, to the end of the text. The database raises (date/time field value
  out of range) when the fields name no calendar date, as for the 29th of February of a
  common year, or a year beyond its last one, 5874897.
\<close>

definition to_date_DDMMYYYY :: "string \<Rightarrow> error + date" where
  "to_date_DDMMYYYY s =
     (case (parse_int (take 2 s), parse_int (take 2 (drop 2 s)), parse_int (drop 4 s)) of
        (Some d, Some m, Some y) \<Rightarrow>
          (let dt = \<lparr>year = y, month = m, day = d\<rparr> in
           if wf_date dt \<and> y \<le> 5874897 then Inr dt else Inl DBAPIError)
      | _ \<Rightarrow> Inl DBAPIError)"

text \<open>\<^verbatim>\<open>x BETWEEN lo AND hi\<close> on dates; an error in the operand is the statement's error.\<close>

definition between :: "error + date \<Rightarrow> date \<Rightarrow> date \<Rightarrow> error + bool" where
  "between x lo hi =
     (case x of
        Inl e \<Rightarrow> Inl e
      | Inr d \<Rightarrow> Inr (toordinal lo \<le> toordinal d \<and> toordinal d \<le> toordinal hi))"

text \<open>\<^verbatim>\<open>or_(a, b)\<close>: the operands in order, the second only when the first is false.\<close>

definition sql_or :: "error + bool \<Rightarrow> error + bool \<Rightarrow> error + bool" where
  "sql_or a b = (case a of Inl e \<Rightarrow> Inl e | Inr True \<Rightarrow> Inr True | Inr False \<Rightarrow> b)"

text \<open>Running a WHERE clause over the rows: the first error ends the statement.\<close>

fun select_where :: "('a \<Rightarrow> error + bool) \<Rightarrow> 'a list \<Rightarrow> error + 'a list" where
  "select_where p [] = Inr []"
| "select_where p (x # xs) =
     (case p x of
        Inl e \<Rightarrow> Inl e
      | Inr b \<Rightarrow>
          (case select_where p xs of
             Inl e \<Rightarrow> Inl e
           | Inr ys \<Rightarrow> Inr (if b then x # ys else ys)))"

text \<open>\<^verbatim>\<open>a AND b\<close>: the operands in order, the second only when the first is true.\<close>

definition sql_and :: "error + bool \<Rightarrow> error + bool \<Rightarrow> error + bool" where
  "sql_and a b = (case a of Inl e \<Rightarrow> Inl e | Inr False \<Rightarrow> Inr False | Inr True \<Rightarrow> b)"

text \<open>
  The argument of \<^verbatim>\<open>.filter(or_(...))\<close> on one row: the two \<^verbatim>\<open>between\<close> comparisons of the
  dates built from the row's birthday and the two years.
\<close>

definition birthday_filter :: "nat \<Rightarrow> nat \<Rightarrow> date \<Rightarrow> date \<Rightarrow> Contact \<Rightarrow> error + bool" where
  "birthday_filter thisYear nextYear dateFrom dateTo c =
     sql_or (between (to_date_DDMMYYYY (concat_year (to_char_DDMM (birthday c)) thisYear))
               dateFrom dateTo)
            (between (to_date_DDMMYYYY (concat_year (to_char_DDMM (birthday c)) nextYear))
               dateFrom dateTo)"

text \<open>
  The statement's WHERE clause is the conjunction of the date filter and the owner
  comparison of \<^verbatim>\<open>filter_by(user=user)\<close>. SQL leaves the order in which the two are
  evaluated to the database (PostgreSQL's planner puts the cheaper owner comparison
  first), and the order decides on which rows a date is constructed: it is a parameter.
  \<open>evaluated\<close> lists those rows.
\<close>

datatype qual_order = OwnerFirst | DatesFirst

definition where_clause ::
  "qual_order \<Rightarrow> (Contact \<Rightarrow> error + bool) \<Rightarrow> User \<Rightarrow> Contact \<Rightarrow> error + bool" where
  "where_clause ord dates user c =
     (case ord of
        OwnerFirst \<Rightarrow> sql_and (Inr (user_id c = user)) (dates c)
      | DatesFirst \<Rightarrow> sql_and (dates c) (Inr (user_id c = user)))"

definition evaluated :: "qual_order \<Rightarrow> User \<Rightarrow> Session \<Rightarrow> Contact list" where
  "evaluated ord user db =
     (case ord of
        OwnerFirst \<Rightarrow> filter (\<lambda>c. user_id c = user) (rows db)
      | DatesFirst \<Rightarrow> rows db)"

text \<open>
  \<^verbatim>\<open>get_birthday_contacts\<close>. The function reads the clock twice: \<open>today\<close> is what the
  first \<^verbatim>\<open>date.today()\<close> returns, for \<^verbatim>\<open>dateFrom\<close>, and \<open>today'\<close> what the second returns,
  for \<^verbatim>\<open>dateTo\<close>; they are the same date unless midnight passes between the two. The
  database's evaluation order is the parameter \<open>ord\<close>.
\<close>

definition get_birthday_contacts ::
  "qual_order \<Rightarrow> date \<Rightarrow> date \<Rightarrow> int \<Rightarrow> Session \<Rightarrow> User \<Rightarrow> error + Contact list" where
  "get_birthday_contacts ord today today' days db user =
     (let dateFrom = today in
      case date_add today' days of
        Inl e \<Rightarrow> Inl e
      | Inr dateTo \<Rightarrow>
          (let thisYear = year dateFrom; nextYear = year dateFrom + 1 in
           select_where (where_clause ord (birthday_filter thisYear nextYear dateFrom dateTo) user)
             (rows db)))"

section \<open>The words of the specification\<close>

text \<open>
  The candidate date of a contact in a year: the month and the day of the stored birthday
  paired with that year. It falls inside the window when it is a date of the calendar and
  lies from \<open>today\<close>, the first reading of the clock, to \<open>days\<close> days after
  \<open>today'\<close>, the second reading, both ends included.
\<close>

definition candidate :: "Contact \<Rightarrow> nat \<Rightarrow> date" where
  "candidate c y = \<lparr>year = y, month = month (birthday c), day = day (birthday c)\<rparr>"

definition falls_inside :: "date \<Rightarrow> date \<Rightarrow> date \<Rightarrow> int \<Rightarrow> bool" where
  "falls_inside d today today' days =
     (wf_date d \<and> toordinal today \<le> toordinal d \<and> toordinal d \<le> toordinal today' + days)"

definition owned :: "User \<Rightarrow> Session \<Rightarrow> Contact list" where
  "owned user db = filter (\<lambda>c. user_id c = user) (rows db)"

section \<open>Example data\<close>

definition mk_contact :: "int \<Rightarrow> User \<Rightarrow> string \<Rightarrow> nat \<Rightarrow> nat \<Rightarrow> nat \<Rightarrow> Contact" where
  "mk_contact i u n y m d =
     \<lparr>name = n, surname = ''Doe'', email = n @ ''@example.com'', phone_number = ''1234567890'',
      birthday = \<lparr>year = y, month = m, day = d\<rparr>, description = Some ''note'',
      contact_id = i, user_id = u\<rparr>"

definition payload :: ContactSchema where
  "payload =
     \<lparr>name = ''Eve'', surname = ''Roe'', email = ''eve@example.com'', phone_number = ''555'',
      birthday = \<lparr>year = 1999, month = 5, day = 17\<rparr>, description = None\<rparr>"

definition two_users :: Session where
  "two_users =
     \<lparr>rows = [mk_contact 1 1 ''Ann'' 1990 1 2, mk_contact 2 2 ''Bob'' 1985 6 1], commits = 0\<rparr>"

definition year_end :: Session where
  "year_end =
     \<lparr>rows = [mk_contact 1 1 ''Ann'' 1990 1 2, mk_contact 2 1 ''Bob'' 1985 6 1,
              mk_contact 3 1 ''Cid'' 2001 1 4, mk_contact 4 1 ''Dan'' 1970 12 30,
              mk_contact 5 1 ''Eli'' 1988 1 5, mk_contact 6 2 ''Fay'' 1990 1 2],
      commits = 0\<rparr>"

definition november :: Session where
  "november =
     \<lparr>rows = [mk_contact 1 1 ''Ann'' 1990 11 5, mk_contact 2 1 ''Bob'' 1985 11 1,
              mk_contact 3 1 ''Cid'' 2001 11 3, mk_contact 4 1 ''Dan'' 1970 11 4],
      commits = 0\<rparr>"

definition leap_day :: Session where
  "leap_day = \<lparr>rows = [mk_contact 1 1 ''Ann'' 1990 11 10, mk_contact 2 1 ''Gus'' 2000 2 29], commits = 0\<rparr>"

definition fifteen :: Session where
  "fifteen =
     \<lparr>rows = [mk_contact 1 1 ''A'' 1990 1 1, mk_contact 2 1 ''B'' 1990 1 2,
              mk_contact 3 1 ''C'' 1990 1 3, mk_contact 4 2 ''X'' 1990 1 4,
              mk_contact 5 1 ''D'' 1990 1 5, mk_contact 6 1 ''E'' 1990 1 6,
              mk_contact 7 1 ''F'' 1990 1 7, mk_contact 8 1 ''G'' 1990 1 8,
              mk_contact 9 1 ''H'' 1990 1 9, mk_contact 10 1 ''I'' 1990 1 10,
              mk_contact 11 1 ''J'' 1990 1 11, mk_contact 12 1 ''K'' 1990 1 12,
              mk_contact 13 2 ''Y'' 1990 1 13, mk_contact 14 1 ''L'' 1990 1 14,
              mk_contact 15 1 ''M'' 1990 1 15, mk_contact 16 1 ''N'' 1990 1 16,
              mk_contact 17 1 ''O'' 1990 1 17],
      commits = 0\<rparr>"

section \<open>The calendar: day numbers advance with the days\<close>

lemma div_step: "x div k = (x - 1) div k + (if x mod k = 0 then 1 else 0)" if "0 < k" for k x :: int
proof -
  define q where "q = x div k"
  define r where "r = x mod k"
  have x: "x = r + q * k" by (simp add: q_def r_def)
  have r: "0 \<le> r" "r < k" using that by (simp_all add: r_def)
  show ?thesis
  proof (cases "r = 0")
    case True
    have "x - 1 = (k - 1) + (q - 1) * k" using x True by (simp add: algebra_simps)
    then have "(x - 1) div k = (q - 1) + (k - 1) div k" using that by (metis div_mult_self1 add.commute less_irrefl)
    moreover have "(k - 1) div k = 0" using that by (simp add: div_pos_pos_trivial)
    ultimately show ?thesis using True by (simp add: q_def r_def)
  next
    case False
    have "x - 1 = (r - 1) + q * k" using x by simp
    then have "(x - 1) div k = q + (r - 1) div k" using that by (metis div_mult_self1 add.commute less_irrefl)
    moreover have "(r - 1) div k = 0" using r False by (simp add: div_pos_pos_trivial)
    ultimately show ?thesis using False by (simp add: q_def r_def)
  qed
qed

lemma nat_int_mod0: "(y mod numeral k = 0) = (int y mod numeral k = 0)"
proof -
  have "int (y mod numeral k) = int y mod numeral k" by (simp add: zmod_int)
  then show ?thesis by (metis of_nat_eq_0_iff)
qed

lemma dby_Suc: "days_before_year (Suc y) = days_before_year y + (if is_leap y then 366 else 365)"
proof -
  define a where "a = (int y - 1) div 4"
  define b where "b = (int y - 1) div 100"
  define c where "c = (int y - 1) div 400"
  define p where "p = (int y mod 4 = 0)"
  define q where "q = (int y mod 100 = 0)"
  define r where "r = (int y mod 400 = 0)"
  have d: "int y div 4 = a + (if p then 1 else 0)"
     "int y div 100 = b + (if q then 1 else 0)"
     "int y div 400 = c + (if r then 1 else 0)"
    unfolding a_def b_def c_def p_def q_def r_def by (rule div_step, simp)+
  have "(100::int) dvd 400" "(4::int) dvd 100" by simp_all
  then have i: "r \<Longrightarrow> q" "q \<Longrightarrow> p"
    unfolding p_def q_def r_def mod_eq_0_iff_dvd by (blast intro: dvd_trans)+
  have l: "is_leap y = (p \<and> (\<not> q \<or> r))"
    unfolding is_leap_def nat_int_mod0 p_def q_def r_def ..
  have 1: "days_before_year (Suc y) = int y * 365 + int y div 4 - int y div 100 + int y div 400"
    by (simp add: days_before_year_def Let_def)
  have 2: "days_before_year y = (int y - 1) * 365 + a - b + c"
    by (simp add: days_before_year_def Let_def a_def b_def c_def)
  show ?thesis
    unfolding 1 2 d l using i by (cases p; cases q; cases r; simp add: algebra_simps)
qed

lemma month_cases:
  assumes "1 \<le> m" "m \<le> (12::nat)"
  shows "m = 1 \<or> m = 2 \<or> m = 3 \<or> m = 4 \<or> m = 5 \<or> m = 6 \<or> m = 7 \<or> m = 8 \<or> m = 9 \<or> m = 10 \<or> m = 11 \<or> m = 12"
  using assms by arith

lemma dbm_Suc:
  assumes "1 \<le> m" "m < 12"
  shows "days_before_month y (Suc m) = days_before_month y m + int (days_in_month y m)"
proof -
  from assms have "m = 1 \<or> m = 2 \<or> m = 3 \<or> m = 4 \<or> m = 5 \<or> m = 6 \<or> m = 7 \<or> m = 8 \<or> m = 9 \<or> m = 10 \<or> m = 11"
    by arith
  then show ?thesis
    by (elim disjE) (simp_all add: days_before_month_def days_in_month_def)
qed

lemma dbm_December: "days_before_month y 12 + 31 = (if is_leap y then 366 else 365)"
  by (simp add: days_before_month_def)

lemma toordinal_next_day:
  assumes "wf_date d"
  shows "toordinal (next_day d) = toordinal d + 1"
proof -
  consider (a) "day d < days_in_month (year d) (month d)"
    | (b) "day d = days_in_month (year d) (month d)" "month d < 12"
    | (c) "day d = days_in_month (year d) (month d)" "month d = 12"
    using assms unfolding wf_date_def by linarith
  then show ?thesis
  proof cases
    case a
    then show ?thesis by (simp add: next_day_def toordinal_def)
  next
    case b
    with assms have "days_before_month (year d) (Suc (month d)) = days_before_month (year d) (month d) + int (day d)"
      by (simp add: dbm_Suc wf_date_def)
    with b show ?thesis by (simp add: next_day_def toordinal_def)
  next
    case c
    then have "day d = 31" by (simp add: days_in_month_def)
    with c dbm_December [of "year d"] dby_Suc [of "year d"]
    show ?thesis by (simp add: next_day_def toordinal_def days_before_month_def)
  qed
qed

lemma wf_next_day:
  assumes "wf_date d"
  shows "wf_date (next_day d)"
  using assms by (auto simp add: wf_date_def next_day_def days_in_month_def)

lemma toordinal_forward:
  "wf_date d \<Longrightarrow> toordinal (forward n d) = toordinal d + int n"
  by (induction n arbitrary: d) (simp_all add: toordinal_next_day wf_next_day)

lemma toordinal_first: "toordinal \<lparr>year = Suc 0, month = Suc 0, day = Suc 0\<rparr> = 1"
  by (simp add: toordinal_def days_before_year_def days_before_month_def)

lemma prev_day_props:
  assumes "wf_date d" "1 < toordinal d"
  shows "toordinal (prev_day d) = toordinal d - 1 \<and> wf_date (prev_day d)"
proof -
  consider (a) "1 < day d"
    | (b) "day d = 1" "1 < month d"
    | (c) "day d = 1" "month d = 1"
    using assms(1) unfolding wf_date_def by linarith
  then show ?thesis
  proof cases
    case a
    with assms(1) show ?thesis by (auto simp add: prev_day_def toordinal_def wf_date_def)
  next
    case b
    define m where "m = month d - 1"
    have m: "month d = Suc m" "1 \<le> m" "m < 12"
      using b assms(1) unfolding m_def wf_date_def by linarith+
    have "1 \<le> days_in_month (year d) m" by (simp add: days_in_month_def)
    with b m assms(1) dbm_Suc [of m "year d"] show ?thesis
      by (simp add: prev_day_def toordinal_def wf_date_def)
  next
    case c
    have "year d \<noteq> 1"
    proof
      assume "year d = 1"
      with c have "d = \<lparr>year = Suc 0, month = Suc 0, day = Suc 0\<rparr>" by simp
      with assms(2) toordinal_first show False by simp
    qed
    with assms(1) obtain y where y: "year d = Suc y" "1 \<le> y"
      by (cases "year d") (auto simp add: wf_date_def)
    with c dbm_December [of y] dby_Suc [of y] show ?thesis
      by (simp add: prev_day_def toordinal_def wf_date_def days_before_month_def days_in_month_def)
  qed
qed

lemma toordinal_backward:
  "wf_date d \<Longrightarrow> int n < toordinal d \<Longrightarrow> toordinal (backward n d) = toordinal d - int n"
proof (induction n arbitrary: d)
  case 0
  then show ?case by simp
next
  case (Suc n)
  from Suc.prems have "1 < toordinal d" by simp
  with Suc.prems(1) have p: "toordinal (prev_day d) = toordinal d - 1" "wf_date (prev_day d)"
    using prev_day_props by blast+
  with Suc.prems(2) have "int n < toordinal (prev_day d)" by simp
  with Suc.IH [OF p(2)] p(1) show ?case by simp
qed

lemma toordinal_date_add:
  assumes "wf_date d" "date_add d days = Inr d'"
  shows "toordinal d' = toordinal d + days"
proof (cases "0 \<le> days")
  case True
  with assms(2) have "d' = forward (nat days) d"
    by (simp add: date_add_def Let_def split: if_splits)
  with True assms(1) show ?thesis by (simp add: toordinal_forward)
next
  case False
  with assms(2) have "d' = backward (nat (- days)) d" "0 < toordinal d + days"
    by (simp_all add: date_add_def Let_def split: if_splits)
  with False assms(1) show ?thesis by (simp add: toordinal_backward)
qed

lemma day_of_year_bound:
  assumes "wf_date d"
  shows "days_before_month (year d) (month d) + int (day d) \<le> (if is_leap (year d) then 366 else 365)"
proof -
  from assms have "1 \<le> month d" "month d \<le> 12" by (simp_all add: wf_date_def)
  then have "month d = 1 \<or> month d = 2 \<or> month d = 3 \<or> month d = 4 \<or> month d = 5 \<or> month d = 6 \<or>
      month d = 7 \<or> month d = 8 \<or> month d = 9 \<or> month d = 10 \<or> month d = 11 \<or> month d = 12"
    by (rule month_cases)
  then show ?thesis
    using assms
    by (elim disjE) (auto simp add: wf_date_def days_before_month_def days_in_month_def split: if_splits)
qed

lemma days_before_year_mono: "y \<le> z \<Longrightarrow> days_before_year y \<le> days_before_year z"
proof (rule lift_Suc_mono_le [of days_before_year])
  show "days_before_year n \<le> days_before_year (Suc n)" for n
    by (simp add: dby_Suc)
qed

lemma toordinal_le_MAXORDINAL:
  assumes "valid_date d"
  shows "toordinal d \<le> MAXORDINAL"
proof -
  from assms have w: "wf_date d" and y: "Suc (year d) \<le> 10000" by (simp_all add: valid_date_def)
  have "toordinal d \<le> days_before_year (Suc (year d))"
    using day_of_year_bound [OF w] by (simp add: toordinal_def dby_Suc)
  also have "\<dots> \<le> days_before_year 10000"
    using y by (rule days_before_year_mono)
  also have "\<dots> = MAXORDINAL"
    by (simp add: days_before_year_def MAXORDINAL_def)
  finally show ?thesis .
qed

section \<open>Formatting and parsing the candidate date\<close>

lemma digit_val_digit_char: "k < 10 \<Longrightarrow> digit_val (digit_char k) = Some k"
proof -
  assume "k < 10"
  then have "k = 0 \<or> k = 1 \<or> k = 2 \<or> k = 3 \<or> k = 4 \<or> k = 5 \<or> k = 6 \<or> k = 7 \<or> k = 8 \<or> k = 9"
    by arith
  then show ?thesis
    by (elim disjE) (simp_all add: digit_val_def digit_char_def)
qed

lemma parse_int_lpad2: "n < 100 \<Longrightarrow> parse_int (lpad2 n) = Some n"
proof -
  assume n: "n < 100"
  then have "n div 10 mod 10 = n div 10" by simp
  moreover have "n div 10 < 10" using n by simp
  ultimately show ?thesis
    by (simp add: parse_int_def lpad2_def digit_val_digit_char)
qed

lemma str_four:
  assumes "1000 \<le> y" "y \<le> 9999"
  shows "str y = [digit_char (y div 1000), digit_char (y div 100 mod 10),
                  digit_char (y div 10 mod 10), digit_char (y mod 10)]"
proof -
  have "\<not> y < 10" "\<not> y div 10 < 10" "\<not> y div 10 div 10 < 10" "y div 10 div 10 div 10 < 10"
    using assms by arith+
  note assms = this
  have 1: "str y = str (y div 10) @ [digit_char (y mod 10)]"
    using assms str.simps [of y] by simp
  have 2: "str (y div 10) = str (y div 10 div 10) @ [digit_char (y div 10 mod 10)]"
    using assms str.simps [of "y div 10"] by simp
  have 3: "str (y div 10 div 10) = str (y div 10 div 10 div 10) @ [digit_char (y div 10 div 10 mod 10)]"
    using assms str.simps [of "y div 10 div 10"] by simp
  have 4: "str (y div 10 div 10 div 10) = [digit_char (y div 10 div 10 div 10)]"
    using assms str.simps [of "y div 10 div 10 div 10"] by simp
  show ?thesis unfolding 1 2 3 4 by (simp add: div_mult2_eq [symmetric])
qed

lemma parse_int_str_four:
  assumes "1000 \<le> y" "y \<le> 9999"
  shows "parse_int (str y) = Some y"
proof -
  have d: "y div 1000 < 10" using assms by simp
  have "y = 10 * (y div 10) + y mod 10" by simp
  also have "y div 10 = 10 * (y div 10 div 10) + y div 10 mod 10" by simp
  also have "y div 10 div 10 = 10 * (y div 10 div 10 div 10) + y div 10 div 10 mod 10" by simp
  finally have "y = 10 * (10 * (10 * (y div 1000) + y div 100 mod 10) + y div 10 mod 10) + y mod 10"
    by (simp add: div_mult2_eq [symmetric])
  then show ?thesis
    using d by (simp add: str_four [OF assms] parse_int_def digit_val_digit_char)
qed

lemma candidate_date:
  assumes "day (birthday c) < 100" "month (birthday c) < 100" "1000 \<le> y" "y \<le> 9999"
  shows "to_date_DDMMYYYY (concat_year (to_char_DDMM (birthday c)) y) =
           (if wf_date (candidate c y) then Inr (candidate c y) else Inl DBAPIError)"
proof -
  let ?b = "birthday c"
  have l: "length (lpad2 (day ?b)) = 2" "length (lpad2 (month ?b)) = 2" "length (str y) = 4"
    by (simp_all add: lpad2_def str_four [OF assms(3,4)])
  have "take 2 (concat_year (to_char_DDMM ?b) y) = lpad2 (day ?b)"
    "take 2 (drop 2 (concat_year (to_char_DDMM ?b) y)) = lpad2 (month ?b)"
    "drop 4 (concat_year (to_char_DDMM ?b) y) = str y"
    using l by (simp_all add: concat_year_def to_char_DDMM_def)
  then show ?thesis
    using assms(1,2,4)
    by (simp add: to_date_DDMMYYYY_def parse_int_lpad2 parse_int_str_four [OF assms(3,4)]
        candidate_def)
qed

lemma wf_date_small: "wf_date b \<Longrightarrow> day b < 100 \<and> month b < 100"
proof -
  assume w: "wf_date b"
  have "days_in_month (year b) (month b) \<le> 31" by (simp add: days_in_month_def)
  with w show ?thesis by (simp add: wf_date_def)
qed

lemma to_date_error: "to_date_DDMMYYYY s = Inl e \<Longrightarrow> e = DBAPIError"
  by (auto simp add: to_date_DDMMYYYY_def Let_def split: option.splits if_splits prod.splits)

section \<open>The birthday query as a filter\<close>

lemma select_where_Inl:
  assumes "x \<in> set xs" "p x = Inl e" "\<And>y e'. p y = Inl e' \<Longrightarrow> e' = e"
  shows "select_where p xs = Inl e"
  using assms(1)
proof (induction xs)
  case Nil
  then show ?case by simp
next
  case (Cons y ys)
  show ?case
  proof (cases "p y")
    case (Inl e')
    with assms(3) show ?thesis by simp
  next
    case (Inr b)
    with Cons assms(2) have "x \<in> set ys" by auto
    with Cons.IH Inr show ?thesis by simp
  qed
qed

lemma select_where_total:
  "(\<And>x. x \<in> set xs \<Longrightarrow> p x = Inr (q x)) \<Longrightarrow> select_where p xs = Inr (filter q xs)"
  by (induction xs) simp_all

lemma not_leap_day_candidate:
  assumes "wf_date b" "\<not> (month b = 2 \<and> day b = 29)" "1 \<le> y"
  shows "wf_date \<lparr>year = y, month = month b, day = day b\<rparr>"
  using assms by (auto simp add: wf_date_def days_in_month_def split: if_splits)

lemma candidate_invalid:
  assumes "1000 \<le> y1" "y1 \<le> 9999"
    and "day (birthday c) < 100" "month (birthday c) < 100"
    and "\<not> wf_date (candidate c y1)"
  shows "birthday_filter y1 y2 lo hi c = Inl DBAPIError"
  using candidate_date [OF assms(3,4,1,2)] assms(5)
  by (simp add: birthday_filter_def sql_or_def between_def)

lemma row_predicate:
  assumes "wf_date today'" "1000 \<le> year today" "year today < 9999"
    and "date_add today' days = Inr dateTo"
    and "day (birthday c) < 100" "month (birthday c) < 100"
  shows "birthday_filter (year today) (year today + 1) today dateTo c =
         (if \<not> wf_date (candidate c (year today)) then Inl DBAPIError
          else if falls_inside (candidate c (year today)) today today' days then Inr True
          else if \<not> wf_date (candidate c (year today + 1)) then Inl DBAPIError
          else Inr (falls_inside (candidate c (year today + 1)) today today' days))"
proof -
  have t: "toordinal dateTo = toordinal today' + days"
    using assms(1,4) by (rule toordinal_date_add)
  have 1: "to_date_DDMMYYYY (concat_year (to_char_DDMM (birthday c)) (year today)) =
      (if wf_date (candidate c (year today)) then Inr (candidate c (year today)) else Inl DBAPIError)"
    using assms by (intro candidate_date) simp_all
  have 2: "to_date_DDMMYYYY (concat_year (to_char_DDMM (birthday c)) (year today + 1)) =
      (if wf_date (candidate c (year today + 1)) then Inr (candidate c (year today + 1)) else Inl DBAPIError)"
    using assms by (intro candidate_date) simp_all
  show ?thesis
    unfolding birthday_filter_def 1 2
    by (simp add: sql_or_def between_def falls_inside_def t split: bool.splits)
qed

lemma birthday_filter_error:
  "birthday_filter y1 y2 lo hi c = Inl e \<Longrightarrow> e = DBAPIError"
  using to_date_error
  by (auto simp add: birthday_filter_def sql_or_def between_def split: sum.splits bool.splits)

lemma where_clause_error:
  "where_clause ord (birthday_filter y1 y2 lo hi) user c = Inl e \<Longrightarrow> e = DBAPIError"
  using birthday_filter_error
  by (cases ord) (auto simp add: where_clause_def sql_and_def split: sum.splits bool.splits if_splits)

lemma where_clause_Inr:
  "dates c = Inr b \<Longrightarrow> where_clause ord dates user c = Inr (user_id c = user \<and> b)"
  by (cases ord) (auto simp add: where_clause_def sql_and_def split: bool.splits)

lemma where_clause_Inl:
  "dates c = Inl e \<Longrightarrow> c \<in> set (evaluated ord user db) \<Longrightarrow> where_clause ord dates user c = Inl e"
  by (cases ord) (auto simp add: where_clause_def sql_and_def evaluated_def split: bool.splits)

lemma where_clause_other_owner:
  "c \<notin> set (evaluated ord user db) \<Longrightarrow> c \<in> set (rows db) \<Longrightarrow>
     where_clause ord dates user c = Inr False"
  by (cases ord) (auto simp add: where_clause_def sql_and_def evaluated_def split: bool.splits)

lemma birthday_query:
  assumes "valid_date today'" "1000 \<le> year today" "year today < 9999"
    and "0 < toordinal today' + days" "toordinal today' + days \<le> MAXORDINAL"
    and "\<forall>c \<in> set (rows db). wf_date (birthday c)"
    and "\<forall>c \<in> set (evaluated ord user db). \<not> (month (birthday c) = 2 \<and> day (birthday c) = 29)"
  shows "get_birthday_contacts ord today today' days db user =
           Inr (filter (\<lambda>c. user_id c = user \<and>
                        (falls_inside (candidate c (year today)) today today' days \<or>
                         falls_inside (candidate c (year today + 1)) today today' days))
                  (rows db))"
proof -
  from assms(1) have w: "wf_date today'" by (simp add: valid_date_def)
  from assms(4,5) obtain dateTo where d: "date_add today' days = Inr dateTo"
    by (simp add: date_add_def Let_def)
  define dates where "dates = birthday_filter (year today) (year today + 1) today dateTo"
  define q where "q = (\<lambda>c::Contact. user_id c = user \<and>
                        (falls_inside (candidate c (year today)) today today' days \<or>
                         falls_inside (candidate c (year today + 1)) today today' days))"
  have "where_clause ord dates user x = Inr (q x)" if x: "x \<in> set (rows db)" for x
  proof (cases "x \<in> set (evaluated ord user db)")
    case False
    then have "user_id x \<noteq> user"
      using x by (cases ord) (simp_all add: evaluated_def)
    with where_clause_other_owner [OF False x] show ?thesis by (simp add: q_def)
  next
    case True
    from x assms(6) have b: "wf_date (birthday x)" by simp
    then have sm: "day (birthday x) < 100" "month (birthday x) < 100"
      using wf_date_small by blast+
    from True assms(7) have n: "\<not> (month (birthday x) = 2 \<and> day (birthday x) = 29)"
      by simp
    from assms(2) have "wf_date (candidate x (year today))" "wf_date (candidate x (year today + 1))"
      unfolding candidate_def by (intro not_leap_day_candidate [OF b n]; simp)+
    with row_predicate [OF w assms(2,3) d sm]
    have "dates x = Inr (falls_inside (candidate x (year today)) today today' days \<or>
                        falls_inside (candidate x (year today + 1)) today today' days)"
      by (simp add: dates_def)
    then show ?thesis
      unfolding q_def by (rule where_clause_Inr)
  qed
  then have "select_where (where_clause ord dates user) (rows db) = Inr (filter q (rows db))"
    by (rule select_where_total)
  then show ?thesis
    unfolding get_birthday_contacts_def Let_def d dates_def q_def by (simp only: sum.case)
qed

lemma birthday_query_overflow:
  assumes "\<not> (0 < toordinal today' + days \<and> toordinal today' + days \<le> MAXORDINAL)"
  shows "get_birthday_contacts ord today today' days db user = Inl OverflowError"
proof -
  from assms have "date_add today' days = Inl OverflowError"
    by (simp add: date_add_def Let_def)
  then show ?thesis
    unfolding get_birthday_contacts_def Let_def by (simp only: sum.case)
qed

section \<open>Lookups, updates and pages\<close>

lemma scalar_one_or_none_Some:
  "scalar_one_or_none xs = Inr (Some x) \<Longrightarrow> xs = [x]"
  by (cases xs rule: scalar_one_or_none.cases) simp_all

lemma filter_key_single:
  "distinct (map f xs) \<Longrightarrow> x \<in> set xs \<Longrightarrow> filter (\<lambda>r. f r = f x) xs = [x]"
proof (induction xs)
  case Nil
  then show ?case by simp
next
  case (Cons a xs)
  show ?case
  proof (cases "a = x")
    case True
    with Cons.prems have "f x \<notin> f ` set xs" by simp
    then have "\<forall>r \<in> set xs. f r \<noteq> f x" by (metis imageI)
    then have "filter (\<lambda>r. f r = f x) xs = []" by (simp add: filter_empty_conv)
    with True show ?thesis by simp
  next
    case False
    with Cons.prems have "x \<in> set xs" "f a \<noteq> f x" by auto
    with Cons show ?thesis by simp
  qed
qed

lemma assign_fields_simps:
  "name (assign_fields c body) = name body"
  "surname (assign_fields c body) = surname body"
  "email (assign_fields c body) = email body"
  "phone_number (assign_fields c body) = phone_number body"
  "birthday (assign_fields c body) = birthday body"
  "description (assign_fields c body) = description body"
  "contact_id (assign_fields c body) = contact_id c"
  "user_id (assign_fields c body) = user_id c"
  by (simp_all add: assign_fields_def)

lemma page_split:
  assumes "distinct (map contact_id (rows db))" "length (owned user db) = 15"
  shows "length (take 10 (owned user db)) = 10" "length (take 10 (drop 10 (owned user db))) = 5"
    "set (take 10 (owned user db)) \<inter> set (take 10 (drop 10 (owned user db))) = {}"
    "take 10 (owned user db) @ take 10 (drop 10 (owned user db)) = owned user db"
proof -
  let ?o = "owned user db"
  from assms(1) have "distinct (rows db)" by (simp add: distinct_map)
  then have d: "distinct ?o" by (simp add: owned_def)
  show a: "take 10 ?o @ take 10 (drop 10 ?o) = ?o"
    using assms(2) by simp
  with d have "distinct (take 10 ?o @ take 10 (drop 10 ?o))" by simp
  then show "set (take 10 ?o) \<inter> set (take 10 (drop 10 ?o)) = {}" by simp
  show "length (take 10 ?o) = 10" "length (take 10 (drop 10 ?o)) = 5"
    using assms(2) by simp_all
qed

lemma page_owned:
  "c \<in> set (take n (drop k (owned user db))) \<Longrightarrow> c \<in> set (rows db) \<and> user_id c = user"
proof -
  assume "c \<in> set (take n (drop k (owned user db)))"
  then have "c \<in> set (owned user db)"
    by (meson in_set_takeD in_set_dropD)
  then show ?thesis by (simp add: owned_def)
qed

lemma get_contacts_owned:
  "0 \<le> limit \<Longrightarrow> limit < 9223372036854775808 \<Longrightarrow>
   0 \<le> offset \<Longrightarrow> offset < 9223372036854775808 \<Longrightarrow>
     get_contacts limit offset db user = Inr (take (nat limit) (drop (nat offset) (owned user db)))"
  by (simp add: get_contacts_def owned_def in_int8_def)

lemma get_contacts_refused:
  "limit < 0 \<or> offset < 0 \<or> 9223372036854775808 \<le> limit \<or> 9223372036854775808 \<le> offset \<Longrightarrow>
     get_contacts limit offset db user = Inl DBAPIError"
  by (auto simp add: get_contacts_def in_int8_def)

lemma get_contact_Some:
  assumes "get_contact cid db user = Inr (Some c)"
  shows "in_int4 cid" "filter (\<lambda>r. contact_id r = cid \<and> user_id r = user) (rows db) = [c]"
proof -
  from assms show i: "in_int4 cid"
    by (simp add: get_contact_def split: if_splits)
  with assms show "filter (\<lambda>r. contact_id r = cid \<and> user_id r = user) (rows db) = [c]"
    by (simp add: get_contact_def scalar_one_or_none_Some)
qed

lemma get_contact_absent:
  assumes "\<forall>c \<in> set (rows db). \<not> (contact_id c = cid \<and> user_id c = user)"
  shows "get_contact cid db user = (if in_int4 cid then Inr None else Inl DBAPIError)"
proof -
  from assms have "filter (\<lambda>c. contact_id c = cid \<and> user_id c = user) (rows db) = []"
    by (simp add: filter_empty_conv)
  then show ?thesis by (simp add: get_contact_def)
qed

lemma cross_owner_get:
  assumes "distinct (map contact_id (rows db))" "c \<in> set (rows db)" "user_id c \<noteq> user"
    and "in_int4 (contact_id c)"
  shows "get_contact (contact_id c) db user = Inr None"
proof -
  have "filter (\<lambda>r. contact_id r = contact_id c \<and> user_id r = user) (rows db) =
          filter (\<lambda>r. user_id r = user) (filter (\<lambda>r. contact_id r = contact_id c) (rows db))"
    by (simp add: conj_commute)
  also have "\<dots> = []"
    using filter_key_single [OF assms(1,2)] assms(3) by simp
  finally show ?thesis using assms(4) by (simp add: get_contact_def)
qed

section \<open>Evaluating the examples\<close>

lemma forward_numeral: "forward (numeral k) d = forward (pred_numeral k) (next_day d)"
  by (simp add: numeral_eq_Suc)

lemma backward_numeral: "backward (numeral k) d = backward (pred_numeral k) (prev_day d)"
  by (simp add: numeral_eq_Suc)

lemmas calendar_defs = toordinal_def days_before_year_def days_before_month_def
  days_in_month_def is_leap_def MAXORDINAL_def wf_date_def valid_date_def

lemmas example_defs = two_users_def year_end_def november_def leap_day_def fifteen_def
  mk_contact_def payload_def

section \<open>The claims\<close>

text \<open>
  C1 (owner scoping of get, update, delete, list and list_by_field). The lookups by
  \<^verbatim>\<open>filter_by(id=contact_id, user=user)\<close> are scoped (\<open>cross_owner_get\<close>: a contact of
  another owner is not found), but \<^verbatim>\<open>get_contacts_by_params\<close> never compares the owner. In a
  table where user 1 owns the contact named Ann, user 2 does not find it by its id and
  still receives its row when filtering by the name.
\<close>

theorem owner_scoping_broken:
  "user_id (mk_contact 1 1 ''Ann'' 1990 1 2) \<noteq> 2
   \<and> get_contact 1 two_users 2 = Inr None
   \<and> get_contacts_by_params (Some ''Ann'') None None two_users 2 =
        Inr [columns (mk_contact 1 1 ''Ann'' 1990 1 2)]"
  by (simp add: get_contact_def in_int4_def get_contacts_by_params_def build_stmt_def example_defs)

text \<open>
  C2 (birthday window). Let \<open>today\<close> and \<open>today'\<close> be the two readings of the clock, both
  dates, the first in a year from 1000 to 9998; let the stored birthdays be dates and let
  no contact on which the database evaluates the date filter (the owner's contacts when
  the owner comparison goes first, every row otherwise) be born on the 29th of February.
  When \<open>today' + days\<close> is a date (its day number is within \<open>1 .. MAXORDINAL\<close>), the query
  returns, in table order, exactly the owner's contacts one of whose two candidate dates,
  month and day of the birthday in the year of \<open>today\<close> or in the next, falls inside the
  window from \<open>today\<close> to \<open>today' + days\<close>, both ends included; the stored birth year does
  not occur in the condition. When \<open>today' + days\<close> is no date, the call raises
  \<^verbatim>\<open>OverflowError\<close>.
\<close>

theorem birthday_window:
  assumes "valid_date today" "valid_date today'" "1000 \<le> year today" "year today < 9999"
    and "\<forall>c \<in> set (rows db). wf_date (birthday c)"
    and "\<forall>c \<in> set (evaluated ord user db). \<not> (month (birthday c) = 2 \<and> day (birthday c) = 29)"
  shows "get_birthday_contacts ord today today' days db user =
           (if 0 < toordinal today' + days \<and> toordinal today' + days \<le> MAXORDINAL
            then Inr (filter (\<lambda>c. user_id c = user \<and>
                        (falls_inside (candidate c (year today)) today today' days \<or>
                         falls_inside (candidate c (year today + 1)) today today' days))
                  (rows db))
            else Inl OverflowError)"
proof (cases "0 < toordinal today' + days \<and> toordinal today' + days \<le> MAXORDINAL")
  case True
  then have "0 < toordinal today' + days" "toordinal today' + days \<le> MAXORDINAL" by simp_all
  from birthday_query [OF assms(2,3,4) this assms(5,6)] True show ?thesis by simp
next
  case False
  from birthday_query_overflow [OF this] False show ?thesis by simp
qed

text \<open>
  On 2026-12-30 with 5 days the window ends on 2027-01-04: the birthdays on 2 and 4 January
  match through next year's candidate and 30 December through this year's; 1 June and
  5 January do not match, and neither does another owner's 2 January.
\<close>

theorem birthday_window_witness:
  "get_birthday_contacts DatesFirst \<lparr>year = 2026, month = 12, day = 30\<rparr>
       \<lparr>year = 2026, month = 12, day = 30\<rparr> 5 year_end 1 =
     Inr [mk_contact 1 1 ''Ann'' 1990 1 2, mk_contact 3 1 ''Cid'' 2001 1 4,
          mk_contact 4 1 ''Dan'' 1970 12 30]"
proof -
  let ?t = "\<lparr>year = 2026, month = 12, day = 30\<rparr>"
  have "valid_date ?t" "valid_date ?t" "1000 \<le> year ?t" "year ?t < 9999"
    "\<forall>c \<in> set (rows year_end). wf_date (birthday c)"
    "\<forall>c \<in> set (evaluated DatesFirst 1 year_end).
       \<not> (month (birthday c) = 2 \<and> day (birthday c) = 29)"
    by (simp_all add: calendar_defs example_defs evaluated_def)
  from birthday_window [OF this, of 5] show ?thesis
    by (simp add: falls_inside_def candidate_def calendar_defs example_defs)
qed

text \<open>
  The claim as stated, for every non-negative number of days and one \<open>today\<close>, fails in two
  ways. With 3000000 days from 2026-11-03 the addition raises \<^verbatim>\<open>OverflowError\<close> and no
  list is returned, although the candidate 2027-01-02 of the owner's contact lies in the
  window. And when midnight passes between the two readings (2026-11-03, then 2026-11-04)
  the query with 0 days returns the contacts born on the 3rd and on the 4th of November,
  of which the second is not inside the window of the one day 2026-11-03.
\<close>

theorem birthday_window_overflow:
  "get_birthday_contacts OwnerFirst \<lparr>year = 2026, month = 11, day = 3\<rparr>
       \<lparr>year = 2026, month = 11, day = 3\<rparr> 3000000 two_users 1 = Inl OverflowError
   \<and> get_birthday_contacts DatesFirst \<lparr>year = 2026, month = 11, day = 3\<rparr>
       \<lparr>year = 2026, month = 11, day = 3\<rparr> 3000000 two_users 1 = Inl OverflowError
   \<and> mk_contact 1 1 ''Ann'' 1990 1 2 \<in> set (owned 1 two_users)
   \<and> falls_inside (candidate (mk_contact 1 1 ''Ann'' 1990 1 2) 2027)
        \<lparr>year = 2026, month = 11, day = 3\<rparr> \<lparr>year = 2026, month = 11, day = 3\<rparr> 3000000
   \<and> get_birthday_contacts OwnerFirst \<lparr>year = 2026, month = 11, day = 3\<rparr>
       \<lparr>year = 2026, month = 11, day = 4\<rparr> 0 november 1 =
         Inr [mk_contact 3 1 ''Cid'' 2001 11 3, mk_contact 4 1 ''Dan'' 1970 11 4]
   \<and> \<not> falls_inside (candidate (mk_contact 4 1 ''Dan'' 1970 11 4) 2026)
        \<lparr>year = 2026, month = 11, day = 3\<rparr> \<lparr>year = 2026, month = 11, day = 3\<rparr> 0
   \<and> \<not> falls_inside (candidate (mk_contact 4 1 ''Dan'' 1970 11 4) 2027)
        \<lparr>year = 2026, month = 11, day = 3\<rparr> \<lparr>year = 2026, month = 11, day = 3\<rparr> 0"
proof -
  let ?t = "\<lparr>year = 2026, month = 11, day = 3\<rparr>"
  let ?t' = "\<lparr>year = 2026, month = 11, day = 4\<rparr>"
  have o: "get_birthday_contacts OwnerFirst ?t ?t 3000000 two_users 1 = Inl OverflowError"
    "get_birthday_contacts DatesFirst ?t ?t 3000000 two_users 1 = Inl OverflowError"
    by (simp_all add: get_birthday_contacts_def date_add_def calendar_defs)
  have "valid_date ?t'" "1000 \<le> year ?t" "year ?t < 9999"
    "0 < toordinal ?t' + 0" "toordinal ?t' + 0 \<le> MAXORDINAL"
    "\<forall>c \<in> set (rows november). wf_date (birthday c)"
    "\<forall>c \<in> set (evaluated OwnerFirst 1 november).
       \<not> (month (birthday c) = 2 \<and> day (birthday c) = 29)"
    by (simp_all add: calendar_defs example_defs evaluated_def)
  from birthday_query [OF this]
  have m: "get_birthday_contacts OwnerFirst ?t ?t' 0 november 1 =
      Inr [mk_contact 3 1 ''Cid'' 2001 11 3, mk_contact 4 1 ''Dan'' 1970 11 4]"
    by (simp add: falls_inside_def candidate_def calendar_defs example_defs)
  have f: "mk_contact 1 1 ''Ann'' 1990 1 2 \<in> set (owned 1 two_users)"
    "falls_inside (candidate (mk_contact 1 1 ''Ann'' 1990 1 2) 2027) ?t ?t 3000000"
    "\<not> falls_inside (candidate (mk_contact 4 1 ''Dan'' 1970 11 4) 2026) ?t ?t 0"
    "\<not> falls_inside (candidate (mk_contact 4 1 ''Dan'' 1970 11 4) 2027) ?t ?t 0"
    by (simp_all add: falls_inside_def candidate_def owned_def calendar_defs example_defs)
  from o m f show ?thesis by (intro conjI)
qed

text \<open>
  C3 (filter precedence). The first filter that is not \<^verbatim>\<open>None\<close>, in the order name,
  surname, email, selects the statement. The result holds, in table order, one row for
  each row of the table whose column equals the value, and for no other: its identifier
  and its six fields. The later filters are not looked at.
\<close>

theorem filter_precedence:
  "get_contacts_by_params (Some n) s e db user =
     Inr (map (\<lambda>c. (contact_id c, name c, surname c, email c, phone_number c, birthday c,
                     description c))
            (filter (\<lambda>c. name c = n) (rows db)))
   \<and> get_contacts_by_params None (Some s') e db user =
     Inr (map (\<lambda>c. (contact_id c, name c, surname c, email c, phone_number c, birthday c,
                     description c))
            (filter (\<lambda>c. surname c = s') (rows db)))
   \<and> get_contacts_by_params None None (Some e') db user =
     Inr (map (\<lambda>c. (contact_id c, name c, surname c, email c, phone_number c, birthday c,
                     description c))
            (filter (\<lambda>c. email c = e') (rows db)))"
  by (simp add: get_contacts_by_params_def build_stmt_def columns_def)

theorem filter_precedence_witness:
  "get_contacts_by_params (Some ''Ann'') (Some ''Roe'') (Some ''nobody'') two_users 2 =
     Inr [(1, ''Ann'', ''Doe'', ''Ann@example.com'', ''1234567890'',
           \<lparr>year = 1990, month = 1, day = 2\<rparr>, Some ''note'')]
   \<and> get_contacts_by_params None (Some ''Doe'') (Some ''nobody'') two_users 2 =
     Inr [(1, ''Ann'', ''Doe'', ''Ann@example.com'', ''1234567890'',
           \<lparr>year = 1990, month = 1, day = 2\<rparr>, Some ''note''),
          (2, ''Bob'', ''Doe'', ''Bob@example.com'', ''1234567890'',
           \<lparr>year = 1985, month = 6, day = 1\<rparr>, Some ''note'')]
   \<and> get_contacts_by_params None None (Some ''Bob@example.com'') two_users 2 =
     Inr [(2, ''Bob'', ''Doe'', ''Bob@example.com'', ''1234567890'',
           \<lparr>year = 1985, month = 6, day = 1\<rparr>, Some ''note'')]
   \<and> get_contacts_by_params None None (Some ''bob@example.com'') two_users 2 = Inr []"
  using filter_precedence [of "''Ann''" "Some ''Roe''" "Some ''nobody''" two_users 2
      "''Doe''" "''Bob@example.com''"]
    filter_precedence [of "''Ann''" None None two_users 2 "''Doe''" "''bob@example.com''"]
  by (simp add: example_defs)

text \<open>
  C4 (all filters absent). With the three filters \<^verbatim>\<open>None\<close> no statement is assigned, and
  executing the unassigned local fails: the call returns no result.
\<close>

theorem no_filter_fails:
  "get_contacts_by_params None None None db user = Inl UnboundLocalError"
  by (simp add: get_contacts_by_params_def build_stmt_def)

text \<open>
  C5 (full replace). When the contact is found for the owner, the update returns it with
  all six fields equal to the payload's, its key and owner unchanged, and a later lookup
  reads the same contact back. The identifiers of the table are distinct (primary key).
\<close>

theorem update_replaces_all_fields:
  assumes "distinct (map contact_id (rows db))"
    and "get_contact cid db user = Inr (Some c)"
  shows "\<exists>c'. fst (update_contact cid body db user) = Inr (Some c')
           \<and> name c' = name body \<and> surname c' = surname body \<and> email c' = email body
           \<and> phone_number c' = phone_number body \<and> birthday c' = birthday body
           \<and> description c' = description body
           \<and> contact_id c' = cid \<and> user_id c' = user
           \<and> get_contact cid (snd (update_contact cid body db user)) user = Inr (Some c')"
proof -
  let ?P = "\<lambda>r. contact_id r = cid \<and> user_id r = user"
  let ?c' = "assign_fields c body"
  from get_contact_Some [OF assms(2)]
  have i: "in_int4 cid" and f: "filter ?P (rows db) = [c]" by simp_all
  from f have "c \<in> set (filter ?P (rows db))" by simp
  then have c: "c \<in> set (rows db)" "contact_id c = cid" "user_id c = user" by simp_all
  have u: "update_contact cid body db user =
      (Inr (Some ?c'),
       db\<lparr>rows := filter (\<lambda>r. contact_id r \<noteq> cid) (rows db) @ [?c'],
          commits := commits db + 1\<rparr>)"
    using c(2) by (simp add: update_contact_def assms(2) Let_def)
  have "filter ?P (filter (\<lambda>r. contact_id r \<noteq> cid) (rows db)) = []"
    by (simp add: filter_empty_conv)
  then have "filter ?P (filter (\<lambda>r. contact_id r \<noteq> cid) (rows db) @ [?c']) = [?c']"
    using c by (simp add: assign_fields_simps)
  then have "get_contact cid (snd (update_contact cid body db user)) user = Inr (Some ?c')"
    using i by (simp add: u get_contact_def)
  then show ?thesis
    using c by (intro exI [of _ ?c']) (simp add: u assign_fields_simps)
qed

text \<open>
  A stored description is cleared by a payload whose description is \<^verbatim>\<open>None\<close>.
\<close>

theorem update_replaces_all_fields_witness:
  "fst (update_contact 1 payload two_users 1) =
     Inr (Some \<lparr>name = ''Eve'', surname = ''Roe'', email = ''eve@example.com'', phone_number = ''555'',
                birthday = \<lparr>year = 1999, month = 5, day = 17\<rparr>, description = None,
                contact_id = 1, user_id = 1\<rparr>)
   \<and> get_contact 1 (snd (update_contact 1 payload two_users 1)) 1 =
        fst (update_contact 1 payload two_users 1)"
proof -
  have "distinct (map contact_id (rows two_users))"
    "get_contact 1 two_users 1 = Inr (Some (mk_contact 1 1 ''Ann'' 1990 1 2))"
    by (simp_all add: get_contact_def in_int4_def example_defs)
  from update_replaces_all_fields [OF this, of payload]
  obtain c' where c: "fst (update_contact 1 payload two_users 1) = Inr (Some c')"
    "name c' = name payload" "surname c' = surname payload" "email c' = email payload"
    "phone_number c' = phone_number payload" "birthday c' = birthday payload"
    "description c' = description payload" "contact_id c' = 1" "user_id c' = 1"
    "get_contact 1 (snd (update_contact 1 payload two_users 1)) 1 = Inr (Some c')"
    by blast
  then have "c' = \<lparr>name = ''Eve'', surname = ''Roe'', email = ''eve@example.com'', phone_number = ''555'',
                birthday = \<lparr>year = 1999, month = 5, day = 17\<rparr>, description = None,
                contact_id = 1, user_id = 1\<rparr>"
    by (cases c') (simp add: payload_def)
  with c(1,10) show ?thesis by simp
qed

text \<open>
  C6 (update of an absent contact). When no row has the identifier and the owner, the
  session after the update is the one before: same rows, same number of commits. The
  update returns \<^verbatim>\<open>None\<close> when the identifier is a 32-bit integer, and the route
  \<^verbatim>\<open>PUT /contacts/{contact_id}\<close> turns this into the 404 exception for identifiers from 1 on;
  for an identifier that is no 32-bit integer the database's error is raised instead
  (status 500), and the route rejects an identifier below 1 (status 422).
\<close>

theorem update_absent_no_mutation:
  assumes "\<forall>c \<in> set (rows db). \<not> (contact_id c = cid \<and> user_id c = user)"
  shows "update_contact cid body db user =
           (if in_int4 cid then Inr None else Inl DBAPIError, db)
         \<and> route_update_contact body cid db user =
           (if cid < 1 then Inl RequestValidationError
            else if in_int4 cid then Inl (HTTPException 404)
            else Inl DBAPIError, db)
         \<and> status_code 200 (fst (route_update_contact body cid db user)) =
           (if cid < 1 then 422 else if in_int4 cid then 404 else 500)"
proof -
  have "update_contact cid body db user = (if in_int4 cid then Inr None else Inl DBAPIError, db)"
    by (simp add: update_contact_def get_contact_absent [OF assms])
  then show ?thesis by (simp add: route_update_contact_def)
qed

theorem update_absent_no_mutation_witness:
  "update_contact 2 payload two_users 1 = (Inr None, two_users)
   \<and> route_update_contact payload 2 two_users 1 = (Inl (HTTPException 404), two_users)
   \<and> status_code 200 (fst (route_update_contact payload 2 two_users 1)) = 404
   \<and> get_contact 2 two_users 2 = Inr (Some (mk_contact 2 2 ''Bob'' 1985 6 1))"
proof -
  have "\<forall>c \<in> set (rows two_users). \<not> (contact_id c = 2 \<and> user_id c = 1)"
    by (simp add: example_defs)
  from update_absent_no_mutation [OF this, of payload]
  have "update_contact 2 payload two_users 1 = (Inr None, two_users)"
    "route_update_contact payload 2 two_users 1 = (Inl (HTTPException 404), two_users)"
    by (simp_all add: in_int4_def)
  moreover have "get_contact 2 two_users 2 = Inr (Some (mk_contact 2 2 ''Bob'' 1985 6 1))"
    by (simp add: get_contact_def in_int4_def example_defs)
  ultimately show ?thesis by simp
qed

text \<open>
  The claim as stated, for every contact identifier, fails at an identifier that is no
  32-bit integer: for 2147483648, which no contact has, the update raises the database's
  error and the route, whose \<^verbatim>\<open>Path(ge=1)\<close> has no upper bound, answers 500, not 404.
\<close>

theorem update_absent_out_of_range:
  "filter (\<lambda>c. contact_id c = 2147483648 \<and> user_id c = 1) (rows two_users) = []
   \<and> update_contact 2147483648 payload two_users 1 = (Inl DBAPIError, two_users)
   \<and> fst (update_contact 2147483648 payload two_users 1) \<noteq> Inr None
   \<and> status_code 200 (fst (route_update_contact payload 2147483648 two_users 1)) = 500"
  by (simp add: update_contact_def route_update_contact_def get_contact_def in_int4_def
      example_defs)

text \<open>
  C7 (delete). The repository function removes the owner's contact and returns it, and
  returns \<^verbatim>\<open>None\<close> when there is none. The route then reads \<^verbatim>\<open>contact.scalars()\<close> on that
  value, which raises for a contact and for \<^verbatim>\<open>None\<close> alike: the response has status 500
  in both cases, never 204 or 404, and on success the row is gone all the same.
\<close>

theorem delete_route_fails:
  "fst (delete_contact 1 two_users 1) = Inr (Some (mk_contact 1 1 ''Ann'' 1990 1 2))
   \<and> rows (snd (delete_contact 1 two_users 1)) = [mk_contact 2 2 ''Bob'' 1985 6 1]
   \<and> status_code 204 (fst (route_delete_contact 1 two_users 1)) = 500
   \<and> rows (snd (route_delete_contact 1 two_users 1)) = [mk_contact 2 2 ''Bob'' 1985 6 1]
   \<and> fst (delete_contact 7 two_users 1) = Inr None
   \<and> status_code 204 (fst (route_delete_contact 7 two_users 1)) = 500"
  by (simp add: route_delete_contact_def delete_contact_def get_contact_def in_int4_def
      example_defs)

text \<open>
  C8 (pagination). The table is read in its natural order and is the same at both calls.
  Over 15 owned contacts with distinct identifiers, the pages \<open>(limit 10, offset 0)\<close> and
  \<open>(limit 10, offset 10)\<close> hold 10 and 5 contacts, share none, and one after the other are
  the owner's contacts in table order. In general, for a limit and an offset from 0 up to,
  not including, 9223372036854775808, a page is the first \<open>limit\<close> of the owner's contacts
  after the first \<open>offset\<close> of them; for a negative or larger limit or offset the database
  refuses the statement, and the route \<^verbatim>\<open>GET /contacts/\<close>, which bounds the limit and has
  no upper bound on the offset, answers 500 for such an offset.
\<close>

theorem pagination_split:
  "(distinct (map contact_id (rows db)) \<and> length (owned user db) = 15 \<longrightarrow>
      (\<exists>p1 p2. get_contacts 10 0 db user = Inr p1 \<and> get_contacts 10 10 db user = Inr p2
           \<and> route_get_contacts 10 0 db user = Inr p1 \<and> route_get_contacts 10 10 db user = Inr p2
           \<and> length p1 = 10 \<and> length p2 = 5
           \<and> set p1 \<inter> set p2 = {} \<and> p1 @ p2 = owned user db))
   \<and> (0 \<le> limit \<and> limit < 9223372036854775808 \<and> 0 \<le> offset \<and> offset < 9223372036854775808 \<longrightarrow>
      (\<exists>p. get_contacts limit offset db user = Inr p
           \<and> p = take (nat limit) (drop (nat offset) (owned user db))
           \<and> length p \<le> nat limit
           \<and> (\<forall>c \<in> set p. c \<in> set (rows db) \<and> user_id c = user)))
   \<and> (limit < 0 \<or> offset < 0 \<or> 9223372036854775808 \<le> limit \<or> 9223372036854775808 \<le> offset \<longrightarrow>
      get_contacts limit offset db user = Inl DBAPIError)
   \<and> (10 \<le> limit \<and> limit \<le> 500 \<and> 9223372036854775808 \<le> offset \<longrightarrow>
      status_code 200 (route_get_contacts limit offset db user) = 500)"
proof (intro conjI impI)
  assume "distinct (map contact_id (rows db)) \<and> length (owned user db) = 15"
  then have s: "distinct (map contact_id (rows db))" "length (owned user db) = 15" by simp_all
  have g: "get_contacts 10 0 db user = Inr (take 10 (owned user db))"
    "get_contacts 10 10 db user = Inr (take 10 (drop 10 (owned user db)))"
    using get_contacts_owned [of 10 0 db user] get_contacts_owned [of 10 10 db user] by simp_all
  then have r: "route_get_contacts 10 0 db user = Inr (take 10 (owned user db))"
    "route_get_contacts 10 10 db user = Inr (take 10 (drop 10 (owned user db)))"
    by (simp_all add: route_get_contacts_def)
  from g r page_split [OF s]
  show "\<exists>p1 p2. get_contacts 10 0 db user = Inr p1 \<and> get_contacts 10 10 db user = Inr p2
           \<and> route_get_contacts 10 0 db user = Inr p1 \<and> route_get_contacts 10 10 db user = Inr p2
           \<and> length p1 = 10 \<and> length p2 = 5
           \<and> set p1 \<inter> set p2 = {} \<and> p1 @ p2 = owned user db"
    by blast
next
  assume "0 \<le> limit \<and> limit < 9223372036854775808 \<and> 0 \<le> offset \<and> offset < 9223372036854775808"
  then have "get_contacts limit offset db user = Inr (take (nat limit) (drop (nat offset) (owned user db)))"
    by (simp add: get_contacts_owned)
  moreover have "length (take (nat limit) (drop (nat offset) (owned user db))) \<le> nat limit"
    by simp
  ultimately show "\<exists>p. get_contacts limit offset db user = Inr p
           \<and> p = take (nat limit) (drop (nat offset) (owned user db))
           \<and> length p \<le> nat limit
           \<and> (\<forall>c \<in> set p. c \<in> set (rows db) \<and> user_id c = user)"
    using page_owned [of _ "nat limit" "nat offset" user db] by blast
next
  assume "limit < 0 \<or> offset < 0 \<or> 9223372036854775808 \<le> limit \<or> 9223372036854775808 \<le> offset"
  then show "get_contacts limit offset db user = Inl DBAPIError"
    by (rule get_contacts_refused)
next
  assume a: "10 \<le> limit \<and> limit \<le> 500 \<and> 9223372036854775808 \<le> offset"
  then have "get_contacts limit offset db user = Inl DBAPIError"
    by (intro get_contacts_refused) simp
  with a show "status_code 200 (route_get_contacts limit offset db user) = 500"
    by (simp add: route_get_contacts_def)
qed

theorem pagination_split_witness:
  "\<exists>p1 p2. get_contacts 10 0 fifteen 1 = Inr p1 \<and> get_contacts 10 10 fifteen 1 = Inr p2
     \<and> map contact_id p1 = [1, 2, 3, 5, 6, 7, 8, 9, 10, 11]
     \<and> map contact_id p2 = [12, 14, 15, 16, 17]
     \<and> set p1 \<inter> set p2 = {}
     \<and> get_contacts 500 16 fifteen 1 = Inr []
     \<and> get_contacts 10 (- 1) fifteen 1 = Inl DBAPIError"
proof -
  have h: "distinct (map contact_id (rows fifteen)) \<and> length (owned 1 fifteen) = 15"
    by (simp add: owned_def example_defs)
  have k: "(0::int) \<le> 500 \<and> (500::int) < 9223372036854775808
      \<and> (0::int) \<le> 16 \<and> (16::int) < 9223372036854775808"
    by simp
  have n: "(10::int) < 0 \<or> (- 1::int) < 0 \<or> (9223372036854775808::int) \<le> 10
      \<or> (9223372036854775808::int) \<le> - 1"
    by simp
  note t = pagination_split [of fifteen 1 500 16]
  from t [THEN conjunct1, rule_format, OF h]
  obtain p1 p2 where p1: "get_contacts 10 0 fifteen 1 = Inr p1"
    and p2: "get_contacts 10 10 fifteen 1 = Inr p2"
    and d: "set p1 \<inter> set p2 = {}"
    by (elim exE conjE)
  from t [THEN conjunct2, THEN conjunct1, rule_format, OF k]
  obtain p where e: "get_contacts 500 16 fifteen 1 = Inr p"
    and pe: "p = take (nat 500) (drop (nat 16) (owned 1 fifteen))"
    by (elim exE conjE)
  from pagination_split [of fifteen 1 10 "- 1", THEN conjunct2, THEN conjunct2, THEN conjunct1,
      rule_format, OF n]
  have r: "get_contacts 10 (- 1) fifteen 1 = Inl DBAPIError" .
  have "get_contacts 10 0 fifteen 1 = Inr (take 10 (owned 1 fifteen))"
    "get_contacts 10 10 fifteen 1 = Inr (take 10 (drop 10 (owned 1 fifteen)))"
    by (simp_all add: get_contacts_def in_int8_def owned_def)
  with p1 p2 have q: "p1 = take 10 (owned 1 fifteen)" "p2 = take 10 (drop 10 (owned 1 fifteen))"
    by simp_all
  have m1: "map contact_id p1 = [1, 2, 3, 5, 6, 7, 8, 9, 10, 11]"
    unfolding q by (simp add: owned_def example_defs)
  have m2: "map contact_id p2 = [12, 14, 15, 16, 17]"
    unfolding q by (simp add: owned_def example_defs)
  have "p = []"
    unfolding pe by (simp add: owned_def example_defs)
  with e have e': "get_contacts 500 16 fifteen 1 = Inr []" by simp
  show ?thesis
    by (intro exI [of _ p1] exI [of _ p2] conjI) (fact p1 p2 m1 m2 d e' r)+
qed

text \<open>
  The claim as stated, for every limit and offset, fails at an offset that is no 64-bit
  integer: the database refuses the statement, and the route, whose \<^verbatim>\<open>Query(0, ge=0)\<close> has
  no upper bound, answers 500 where the claim has the empty rest of the list.
\<close>

theorem pagination_offset_out_of_range:
  "get_contacts 10 9223372036854775808 fifteen 1 = Inl DBAPIError
   \<and> route_get_contacts 10 9223372036854775808 fifteen 1 = Inl DBAPIError
   \<and> status_code 200 (route_get_contacts 10 9223372036854775808 fifteen 1) = 500"
  by (simp add: get_contacts_def route_get_contacts_def in_int8_def)

text \<open>
  C9 (leap day). When the owner has a contact born on the 29th of February and neither the
  current nor the next year is a leap year, the query fails with the database's error on
  constructing the candidate date, for every number of days whose window end is a date,
  whatever the second reading of the clock.
\<close>

theorem leap_day_fails:
  assumes "valid_date today" "1000 \<le> year today" "year today < 9999"
    and "0 < toordinal today' + days" "toordinal today' + days \<le> MAXORDINAL"
    and "c \<in> set (rows db)" "user_id c = user"
    and "month (birthday c) = 2" "day (birthday c) = 29"
    and "\<not> is_leap (year today)" "\<not> is_leap (year today + 1)"
  shows "get_birthday_contacts ord today today' days db user = Inl DBAPIError"
proof -
  from assms(4,5) obtain dateTo where d: "date_add today' days = Inr dateTo"
    by (simp add: date_add_def Let_def)
  define dates where "dates = birthday_filter (year today) (year today + 1) today dateTo"
  have "\<not> wf_date (candidate c (year today))"
    using assms(8,9,10) by (simp add: wf_date_def candidate_def days_in_month_def)
  with assms(2,3,8,9) have "dates c = Inl DBAPIError"
    unfolding dates_def by (intro candidate_invalid) simp_all
  moreover from assms(6,7) have "c \<in> set (evaluated ord user db)"
    by (cases ord) (simp_all add: evaluated_def)
  ultimately have 1: "where_clause ord dates user c = Inl DBAPIError"
    by (rule where_clause_Inl)
  have 2: "e = DBAPIError" if "where_clause ord dates user y = Inl e" for y e
    using that unfolding dates_def by (rule where_clause_error)
  have "select_where (where_clause ord dates user) (rows db) = Inl DBAPIError"
    using assms(6) 1 2 by (rule select_where_Inl)
  then show ?thesis
    unfolding get_birthday_contacts_def Let_def d dates_def by (simp only: sum.case)
qed

theorem leap_day_fails_witness:
  "get_birthday_contacts OwnerFirst \<lparr>year = 2026, month = 11, day = 3\<rparr>
       \<lparr>year = 2026, month = 11, day = 3\<rparr> 7 leap_day 1 = Inl DBAPIError"
proof -
  let ?t = "\<lparr>year = 2026, month = 11, day = 3\<rparr>"
  let ?c = "mk_contact 2 1 ''Gus'' 2000 2 29"
  have "valid_date ?t" "1000 \<le> year ?t" "year ?t < 9999"
    "0 < toordinal ?t + 7" "toordinal ?t + 7 \<le> MAXORDINAL"
    "?c \<in> set (rows leap_day)" "user_id ?c = 1"
    "month (birthday ?c) = 2" "day (birthday ?c) = 29"
    "\<not> is_leap (year ?t)" "\<not> is_leap (year ?t + 1)"
    by (simp_all add: calendar_defs example_defs)
  then show ?thesis by (rule leap_day_fails)
qed

text \<open>
  C10 (negative days). Let \<open>today\<close> and \<open>today'\<close> be the two readings of the clock, both
  dates, the first in a year from 1000 to 9998; let the stored birthdays be dates and let
  no contact on which the database evaluates the date filter (the owner's contacts when
  the owner comparison goes first, every row otherwise) be born on the 29th of February.
  For a negative number of days such that \<open>today' + days\<close> is before \<open>today\<close>, as it is
  whenever the two readings are the same date, the query returns the empty list when
  \<open>today' + days\<close> is a date (not before 0001-01-01) and raises \<^verbatim>\<open>OverflowError\<close> when it
  is not.
\<close>

theorem negative_days_no_match:
  assumes "valid_date today" "valid_date today'" "1000 \<le> year today" "year today < 9999"
    and "days < 0" "toordinal today' + days < toordinal today"
    and "\<forall>c \<in> set (rows db). wf_date (birthday c)"
    and "\<forall>c \<in> set (evaluated ord user db). \<not> (month (birthday c) = 2 \<and> day (birthday c) = 29)"
  shows "get_birthday_contacts ord today today' days db user =
           (if 0 < toordinal today' + days then Inr [] else Inl OverflowError)"
proof (cases "0 < toordinal today' + days")
  case True
  from assms(2) have "toordinal today' \<le> MAXORDINAL" by (rule toordinal_le_MAXORDINAL)
  with assms(5) have "toordinal today' + days \<le> MAXORDINAL" by simp
  from birthday_query [OF assms(2,3,4) True this assms(7,8)] assms(6) True
  show ?thesis by (simp add: falls_inside_def filter_empty_conv)
next
  case False
  then have "\<not> (0 < toordinal today' + days \<and> toordinal today' + days \<le> MAXORDINAL)" by simp
  from birthday_query_overflow [OF this] False show ?thesis by simp
qed

text \<open>
  On 2026-11-03 the owner has contacts born on 1, 3, 4 and 5 November. Three days ahead
  the query returns those of the 5th, the 3rd and the 4th; three days back it returns none,
  not even the one of the 1st, which lies between the two ends.
\<close>

theorem negative_days_no_match_witness:
  "get_birthday_contacts OwnerFirst \<lparr>year = 2026, month = 11, day = 3\<rparr>
       \<lparr>year = 2026, month = 11, day = 3\<rparr> (- 3) november 1 = Inr []
   \<and> get_birthday_contacts OwnerFirst \<lparr>year = 2026, month = 11, day = 3\<rparr>
       \<lparr>year = 2026, month = 11, day = 3\<rparr> 3 november 1 =
         Inr [mk_contact 1 1 ''Ann'' 1990 11 5, mk_contact 3 1 ''Cid'' 2001 11 3,
              mk_contact 4 1 ''Dan'' 1970 11 4]"
proof -
  let ?t = "\<lparr>year = 2026, month = 11, day = 3\<rparr>"
  have v: "valid_date ?t" and y: "1000 \<le> year ?t" "year ?t < 9999"
    and b: "\<forall>c \<in> set (rows november). wf_date (birthday c)"
      "\<forall>c \<in> set (evaluated OwnerFirst 1 november).
         \<not> (month (birthday c) = 2 \<and> day (birthday c) = 29)"
    by (simp_all add: calendar_defs example_defs evaluated_def)
  have n: "(- 3 :: int) < 0" "toordinal ?t + (- 3) < toordinal ?t" by simp_all
  from negative_days_no_match [OF v v y n b]
  have 1: "get_birthday_contacts OwnerFirst ?t ?t (- 3) november 1 = Inr []"
    by (simp add: calendar_defs)
  have "0 < toordinal ?t + 3" "toordinal ?t + 3 \<le> MAXORDINAL"
    by (simp_all add: calendar_defs)
  from birthday_query [OF v y this b]
  have 2: "get_birthday_contacts OwnerFirst ?t ?t 3 november 1 =
      Inr [mk_contact 1 1 ''Ann'' 1990 11 5, mk_contact 3 1 ''Cid'' 2001 11 3,
           mk_contact 4 1 ''Dan'' 1970 11 4]"
    by (simp add: falls_inside_def candidate_def calendar_defs example_defs)
  from 1 2 show ?thesis by (intro conjI)
qed

text \<open>
  The claim as stated, for every negative number of days, fails in two ways. A million
  days before 2026-11-03 the window end leaves the calendar and the addition raises
  \<^verbatim>\<open>OverflowError\<close>. And when midnight passes between the two readings (2026-11-03, then
  2026-11-04) the query with \<open>- 1\<close> days has the window of the one day 2026-11-03 and
  returns the contact born on that day.
\<close>

theorem negative_days_overflow:
  "(- 1000000 :: int) < 0
   \<and> get_birthday_contacts OwnerFirst \<lparr>year = 2026, month = 11, day = 3\<rparr>
       \<lparr>year = 2026, month = 11, day = 3\<rparr> (- 1000000) two_users 1 = Inl OverflowError
   \<and> get_birthday_contacts DatesFirst \<lparr>year = 2026, month = 11, day = 3\<rparr>
       \<lparr>year = 2026, month = 11, day = 3\<rparr> (- 1000000) two_users 1 = Inl OverflowError
   \<and> (- 1 :: int) < 0
   \<and> get_birthday_contacts OwnerFirst \<lparr>year = 2026, month = 11, day = 3\<rparr>
       \<lparr>year = 2026, month = 11, day = 4\<rparr> (- 1) november 1 =
         Inr [mk_contact 3 1 ''Cid'' 2001 11 3]"
proof -
  let ?t = "\<lparr>year = 2026, month = 11, day = 3\<rparr>"
  let ?t' = "\<lparr>year = 2026, month = 11, day = 4\<rparr>"
  have o: "get_birthday_contacts OwnerFirst ?t ?t (- 1000000) two_users 1 = Inl OverflowError"
    "get_birthday_contacts DatesFirst ?t ?t (- 1000000) two_users 1 = Inl OverflowError"
    by (simp_all add: get_birthday_contacts_def date_add_def calendar_defs)
  have "valid_date ?t'" "1000 \<le> year ?t" "year ?t < 9999"
    "0 < toordinal ?t' + (- 1)" "toordinal ?t' + (- 1) \<le> MAXORDINAL"
    "\<forall>c \<in> set (rows november). wf_date (birthday c)"
    "\<forall>c \<in> set (evaluated OwnerFirst 1 november).
       \<not> (month (birthday c) = 2 \<and> day (birthday c) = 29)"
    by (simp_all add: calendar_defs example_defs evaluated_def)
  from birthday_query [OF this]
  have m: "get_birthday_contacts OwnerFirst ?t ?t' (- 1) november 1 =
      Inr [mk_contact 3 1 ''Cid'' 2001 11 3]"
    by (simp add: falls_inside_def candidate_def calendar_defs example_defs)
  from o m show ?thesis by simp
qed

end
